theory Spec2Isabelle
  imports Main
begin

section \<open>Data model\<close>

text \<open>
  The per-file body of \<^verbatim>\<open>qmk2srgb.py\<close> (lines 367 to 413) works on a parsed
  \<^verbatim>\<open>info.json\<close>. The numeric values of the document (JSON integers and decimals, which
  Python compares by value) are kept abstract as a linearly ordered type \<open>'a\<close>. A Python
  string is a list of code points, so that characters beyond Latin-1 are representable.
\<close>

type_synonym ustr = "nat list"

definition ustr_of :: "string \<Rightarrow> ustr" where
  "ustr_of s = map of_char s"

text \<open>One entry of \<^verbatim>\<open>rgb_matrix.layout\<close>: \<^verbatim>\<open>x\<close>, \<^verbatim>\<open>y\<close> and the optional
  \<^verbatim>\<open>matrix\<close> pair \<^verbatim>\<open>[row, col]\<close>.\<close>

record 'a led =
  led_x :: 'a
  led_y :: 'a
  led_matrix :: "('a \<times> 'a) option"

text \<open>One key of a physical layout: its \<^verbatim>\<open>matrix\<close> pair and the optional \<^verbatim>\<open>label\<close>.\<close>

record 'a key_meta =
  key_matrix :: "'a \<times> 'a"
  key_label :: "ustr option"

text \<open>The document: \<^verbatim>\<open>rgb_matrix.layout\<close> and, when the key \<^verbatim>\<open>layouts\<close> is present, the
  \<^verbatim>\<open>layout\<close> lists of its values in declared order.\<close>

record 'a doc =
  rgb_layout :: "'a led list"
  layouts :: "'a key_meta list list option"

text \<open>The exceptions the per-file body can raise on such a document.\<close>

datatype error =
    ValueError_index
  | IndexError_layouts
  | TypeError_name
  | ValueError_name

text \<open>The values substituted into the template.\<close>

record file_output =
  width :: nat
  height :: nat
  ledIndices :: "nat list"
  ledNames :: "ustr list"
  ledPositions :: "(nat \<times> nat) list"

section \<open>Axis sequences (lines 367 to 382)\<close>

text \<open>\<^verbatim>\<open>x["x"] if not args.matrix_sizing or "matrix" not in x else x["matrix"][1]\<close>\<close>

definition sel_x :: "bool \<Rightarrow> ('a::linorder) led \<Rightarrow> 'a" where
  "sel_x matrix_sizing l =
     (case led_matrix l of
        None \<Rightarrow> led_x l
      | Some m \<Rightarrow> if \<not> matrix_sizing then led_x l else snd m)"

text \<open>\<^verbatim>\<open>x["y"] if not args.matrix_sizing or "matrix" not in x else x["matrix"][0]\<close>\<close>

definition sel_y :: "bool \<Rightarrow> ('a::linorder) led \<Rightarrow> 'a" where
  "sel_y matrix_sizing l =
     (case led_matrix l of
        None \<Rightarrow> led_y l
      | Some m \<Rightarrow> if \<not> matrix_sizing then led_y l else fst m)"

text \<open>
  \<^verbatim>\<open>list(set(sorted(...)))\<close>: the values are sorted first, put into a set, and the set is
  listed. The order in which Python lists a set is fixed by the runtime, not by the language,
  so the step \<^verbatim>\<open>list(set(l))\<close> is a parameter \<open>set_list\<close> of the model. What the language
  promises of it at a list \<open>l\<close> is \<open>set_list_ok\<close>: the result holds every value of \<open>l\<close> once.
\<close>

definition set_list_ok :: "('a list \<Rightarrow> 'a list) \<Rightarrow> 'a list \<Rightarrow> bool" where
  "set_list_ok set_list l \<longleftrightarrow> distinct (set_list l) \<and> set (set_list l) = set l"

definition axis_xs :: "('a list \<Rightarrow> 'a list) \<Rightarrow> bool \<Rightarrow> ('a::linorder) led list \<Rightarrow> 'a list" where
  "axis_xs set_list matrix_sizing layout = set_list (sort (map (sel_x matrix_sizing) layout))"

definition axis_ys :: "('a list \<Rightarrow> 'a list) \<Rightarrow> bool \<Rightarrow> ('a::linorder) led list \<Rightarrow> 'a list" where
  "axis_ys set_list matrix_sizing layout = set_list (sort (map (sel_y matrix_sizing) layout))"

text \<open>The runtime lists the two coordinate sets of a layout as the language promises.\<close>

definition axes_ok :: "('a list \<Rightarrow> 'a list) \<Rightarrow> bool \<Rightarrow> ('a::linorder) led list \<Rightarrow> bool" where
  "axes_ok set_list matrix_sizing layout \<longleftrightarrow>
     set_list_ok set_list (sort (map (sel_x matrix_sizing) layout)) \<and>
     set_list_ok set_list (sort (map (sel_y matrix_sizing) layout))"

section \<open>Position and label of one LED (lines 389 to 411)\<close>

text \<open>\<^verbatim>\<open>xs.index(v)\<close>: the first position of \<open>v\<close>; \<open>None\<close> stands for the \<^verbatim>\<open>ValueError\<close>.\<close>

fun index_of :: "'a list \<Rightarrow> 'a \<Rightarrow> nat option" where
  "index_of [] v = None"
| "index_of (a # as) v =
     (if a = v then Some 0 else map_option Suc (index_of as v))"

text \<open>\<^verbatim>\<open>d.setdefault(k, v)\<close>: the stored value when \<open>k\<close> is a key, else \<open>v\<close>, which is stored.\<close>

definition setdefault :: "('k \<rightharpoonup> 'v) \<Rightarrow> 'k \<Rightarrow> 'v \<Rightarrow> 'v \<times> ('k \<rightharpoonup> 'v)" where
  "setdefault d k v = (case d k of Some w \<Rightarrow> (w, d) | None \<Rightarrow> (v, d(k \<mapsto> v)))"

text \<open>\<^verbatim>\<open>next((x for x in metas if x["matrix"] == m), None)\<close>\<close>

fun next_match :: "'a key_meta list \<Rightarrow> 'a \<times> 'a \<Rightarrow> 'a key_meta option" where
  "next_match [] m = None"
| "next_match (k # ks) m = (if key_matrix k = m then Some k else next_match ks m)"

text \<open>\<^verbatim>\<open>lbl.isascii()\<close>: every code point is below 128 (true of the empty string).\<close>

definition isascii :: "ustr \<Rightarrow> bool" where
  "isascii s = list_all (\<lambda>c. c < 128) s"

text \<open>
  \<^verbatim>\<open>unicodedata.name(s)\<close> with no default: a \<^verbatim>\<open>TypeError\<close> unless \<open>s\<close> is one character,
  a \<^verbatim>\<open>ValueError\<close> when that character has no name. The name table of the Unicode database is
  the parameter \<open>uname\<close>.
\<close>

definition unicodedata_name :: "(nat \<Rightarrow> ustr option) \<Rightarrow> ustr \<Rightarrow> error + ustr" where
  "unicodedata_name uname s =
     (case s of
        [c] \<Rightarrow> (case uname c of None \<Rightarrow> Inl ValueError_name | Some n \<Rightarrow> Inr n)
      | _ \<Rightarrow> Inl TypeError_name)"

text \<open>\<^verbatim>\<open>s.replace(old, new)\<close> for a one-character \<open>old\<close>, the only use the source makes of it:
  every occurrence, left to right.\<close>

fun replace_chr :: "nat \<Rightarrow> ustr \<Rightarrow> ustr \<Rightarrow> ustr" where
  "replace_chr old new [] = []"
| "replace_chr old new (c # cs) =
     (if c = old then new @ replace_chr old new cs else c # replace_chr old new cs)"

abbreviation backslash :: nat where "backslash \<equiv> 92"
abbreviation dquote :: nat where "dquote \<equiv> 34"

text \<open>Lines 401 to 406, applied to \<^verbatim>\<open>key["label"]\<close>.\<close>

definition sanitize :: "(nat \<Rightarrow> ustr option) \<Rightarrow> ustr \<Rightarrow> error + ustr" where
  "sanitize uname lbl0 =
     (case (if \<not> isascii lbl0 then unicodedata_name uname lbl0 else Inr lbl0) of
        Inl e \<Rightarrow> Inl e
      | Inr lbl1 \<Rightarrow>
          let lbl2 = (if backslash \<in> set lbl1 then replace_chr backslash [backslash, backslash] lbl1 else lbl1);
              lbl3 = (if dquote \<in> set lbl2 then replace_chr dquote [backslash, dquote] lbl2 else lbl2)
          in Inr lbl3)"

text \<open>\<^verbatim>\<open>str(n)\<close> for a natural number, and \<^verbatim>\<open>f"Light {unnamed}"\<close>.\<close>

fun str_nat :: "nat \<Rightarrow> ustr" where
  "str_nat n = (if n < 10 then [48 + n] else str_nat (n div 10) @ [48 + n mod 10])"

declare str_nat.simps [simp del]

definition light :: "nat \<Rightarrow> ustr" where
  "light n = ustr_of ''Light '' @ str_nat n"

text \<open>
  The variables the loop body updates: the counter, the two memos and the two result lists.
\<close>

record 'a vars =
  unnamed :: nat
  matxs :: "'a \<rightharpoonup> nat"
  matys :: "'a \<rightharpoonup> nat"
  vkeynames :: "ustr list"
  vkeypositions :: "(nat \<times> nat) list"

text \<open>
  Lines 393 to 406 for an LED that has a \<^verbatim>\<open>matrix\<close> when \<^verbatim>\<open>layouts\<close> is present: the memo
  updates, then the label, which stays \<open>None\<close> when no key matches or the key has no
  \<^verbatim>\<open>label\<close>. The state is returned also when an exception is raised, as Python leaves it.
\<close>

definition with_matrix ::
  "(nat \<Rightarrow> ustr option) \<Rightarrow> bool \<Rightarrow> 'a key_meta list list \<Rightarrow> 'a vars \<Rightarrow> 'a \<times> 'a \<Rightarrow> nat \<Rightarrow> nat
     \<Rightarrow> (error + (ustr option \<times> nat \<times> nat)) \<times> 'a vars" where
  "with_matrix uname matrix_sizing lays st m ledx0 ledy0 =
     (let (ledx, st1) =
            (if matrix_sizing
             then (let (v, d) = setdefault (matxs st) (fst m) ledx0 in (v, st\<lparr>matxs := d\<rparr>))
             else (ledx0, st));
          (ledy, st2) =
            (if matrix_sizing
             then (let (v, d) = setdefault (matys st1) (snd m) ledy0 in (v, st1\<lparr>matys := d\<rparr>))
             else (ledy0, st1))
      in case lays of
           [] \<Rightarrow> (Inl IndexError_layouts, st2)
         | metas # _ \<Rightarrow>
             (case next_match metas m of
                None \<Rightarrow> (Inr (None, ledx, ledy), st2)
              | Some key \<Rightarrow>
                  (case key_label key of
                     None \<Rightarrow> (Inr (None, ledx, ledy), st2)
                   | Some lbl0 \<Rightarrow>
                       (case sanitize uname lbl0 of
                          Inl e \<Rightarrow> (Inl e, st2)
                        | Inr lbl \<Rightarrow> (Inr (Some lbl, ledx, ledy), st2)))))"

text \<open>One iteration of the loop of line 389. \<open>Some e\<close> is the exception that ends the file.\<close>

definition led_step ::
  "(nat \<Rightarrow> ustr option) \<Rightarrow> bool \<Rightarrow> 'a key_meta list list option \<Rightarrow> 'a list \<Rightarrow> 'a list
     \<Rightarrow> 'a vars \<Rightarrow> ('a::linorder) led \<Rightarrow> error option \<times> 'a vars" where
  "led_step uname matrix_sizing lays xs ys st l =
     (case index_of xs (sel_x matrix_sizing l) of
        None \<Rightarrow> (Some ValueError_index, st)
      | Some ledx0 \<Rightarrow>
     (case index_of ys (sel_y matrix_sizing l) of
        None \<Rightarrow> (Some ValueError_index, st)
      | Some ledy0 \<Rightarrow>
     (case (case (led_matrix l, lays) of
              (Some m, Some ls) \<Rightarrow> with_matrix uname matrix_sizing ls st m ledx0 ledy0
            | _ \<Rightarrow> (Inr (None, ledx0, ledy0), st)) of
        (Inl e, st1) \<Rightarrow> (Some e, st1)
      | (Inr (lbl, ledx, ledy), st1) \<Rightarrow>
          (let (name, st2) =
                 (case lbl of
                    None \<Rightarrow> (light (unnamed st1 + 1), st1\<lparr>unnamed := unnamed st1 + 1\<rparr>)
                  | Some s \<Rightarrow> (s, st1))
           in (None, st2\<lparr>vkeynames := vkeynames st2 @ [name],
                          vkeypositions := vkeypositions st2 @ [(ledx, ledy)]\<rparr>)))))"

text \<open>The loop: it stops at the first exception.\<close>

fun led_loop ::
  "(nat \<Rightarrow> ustr option) \<Rightarrow> bool \<Rightarrow> 'a key_meta list list option \<Rightarrow> 'a list \<Rightarrow> 'a list
     \<Rightarrow> 'a vars \<Rightarrow> ('a::linorder) led list \<Rightarrow> error option \<times> 'a vars" where
  "led_loop uname matrix_sizing lays xs ys st [] = (None, st)"
| "led_loop uname matrix_sizing lays xs ys st (l # ls) =
     (case led_step uname matrix_sizing lays xs ys st l of
        (Some e, st1) \<Rightarrow> (Some e, st1)
      | (None, st1) \<Rightarrow> led_loop uname matrix_sizing lays xs ys st1 ls)"

section \<open>The per-file transform (lines 367 to 413) and the loop over files\<close>

text \<open>
  \<open>st\<close> holds the values the variables have when the body is entered (those the previous
  file left). Lines 384 to 388 assign them anew before the loop.
\<close>

definition process_file ::
  "('a list \<Rightarrow> 'a list) \<Rightarrow> (nat \<Rightarrow> ustr option) \<Rightarrow> bool \<Rightarrow> 'a vars \<Rightarrow> ('a::linorder) doc
     \<Rightarrow> (error + file_output) \<times> 'a vars" where
  "process_file set_list uname matrix_sizing st d =
     (let xs = axis_xs set_list matrix_sizing (rgb_layout d);
          ys = axis_ys set_list matrix_sizing (rgb_layout d);
          vkeys = [0 ..< length (rgb_layout d)];
          st0 = st\<lparr>vkeynames := [], vkeypositions := [], unnamed := 0,
                   matxs := Map.empty, matys := Map.empty\<rparr>;
          (err, st1) = led_loop uname matrix_sizing (layouts d) xs ys st0 (rgb_layout d)
      in (case err of
            Some e \<Rightarrow> Inl e
          | None \<Rightarrow> Inr \<lparr>width = length xs, height = length ys, ledIndices = vkeys,
                          ledNames = vkeynames st1, ledPositions = vkeypositions st1\<rparr>,
          st1))"

definition init_vars :: "'a vars" where
  "init_vars = \<lparr>unnamed = 0, matxs = Map.empty, matys = Map.empty,
                 vkeynames = [], vkeypositions = []\<rparr>"

definition transform ::
  "('a list \<Rightarrow> 'a list) \<Rightarrow> (nat \<Rightarrow> ustr option) \<Rightarrow> bool \<Rightarrow> ('a::linorder) doc \<Rightarrow> error + file_output" where
  "transform set_list uname matrix_sizing d =
     fst (process_file set_list uname matrix_sizing init_vars d)"

text \<open>The loop of lines 358 to 430 over the parsed files: an exception skips the file, and
  the next one starts from the variables as they are.\<close>

fun run_files ::
  "('a list \<Rightarrow> 'a list) \<Rightarrow> (nat \<Rightarrow> ustr option) \<Rightarrow> bool \<Rightarrow> 'a vars \<Rightarrow> ('a::linorder) doc list
     \<Rightarrow> (error + file_output) list" where
  "run_files set_list uname matrix_sizing st [] = []"
| "run_files set_list uname matrix_sizing st (d # ds) =
     (case process_file set_list uname matrix_sizing st d of
        (r, st1) \<Rightarrow> r # run_files set_list uname matrix_sizing st1 ds)"

section \<open>Notions the properties are stated with\<close>

text \<open>The \<^verbatim>\<open>label\<close> that lines 396 to 400 read for an LED, before it is sanitized: \<open>None\<close>
  when the LED has no \<^verbatim>\<open>matrix\<close>, or the document has no \<^verbatim>\<open>layouts\<close>, or no key of the first
  layout matches, or the first key that matches has no \<^verbatim>\<open>label\<close>.\<close>

definition raw_label :: "'a key_meta list list option \<Rightarrow> 'a led \<Rightarrow> ustr option" where
  "raw_label lays l =
     (case (led_matrix l, lays) of
        (Some m, Some (metas # _)) \<Rightarrow>
          (case next_match metas m of None \<Rightarrow> None | Some key \<Rightarrow> key_label key)
      | _ \<Rightarrow> None)"

text \<open>An LED for which line 407 finds \<^verbatim>\<open>lbl is None\<close>.\<close>

definition unlabelled :: "'a key_meta list list option \<Rightarrow> 'a led \<Rightarrow> bool" where
  "unlabelled lays l \<longleftrightarrow> raw_label lays l = None"

text \<open>The escaping the specification asks for, character by character: a backslash becomes
  two backslashes, a double quote becomes a backslash and the quote.\<close>

definition esc_chr :: "nat \<Rightarrow> ustr" where
  "esc_chr c = (if c = backslash then [backslash, backslash]
                else if c = dquote then [backslash, dquote] else [c])"

definition escape :: "ustr \<Rightarrow> ustr" where
  "escape s = concat (map esc_chr s)"

text \<open>A string read left to right in which every backslash starts one of the two escapes and
  no double quote stands outside an escape.\<close>

fun well_escaped :: "ustr \<Rightarrow> bool" where
  "well_escaped [] = True"
| "well_escaped [c] = (c \<noteq> backslash \<and> c \<noteq> dquote)"
| "well_escaped (c # d # ds) =
     (if c = backslash then (d = backslash \<or> d = dquote) \<and> well_escaped ds
      else c \<noteq> dquote \<and> well_escaped (d # ds))"


text \<open>Positions and memo values inside a grid of \<open>W\<close> by \<open>H\<close>.\<close>

definition bounded :: "nat \<Rightarrow> nat \<Rightarrow> 'a vars \<Rightarrow> bool" where
  "bounded W H st \<longleftrightarrow>
     (\<forall>p\<in>set (vkeypositions st). fst p < W \<and> snd p < H) \<and>
     (\<forall>k v. matxs st k = Some v \<longrightarrow> v < W) \<and>
     (\<forall>k v. matys st k = Some v \<longrightarrow> v < H)"

section \<open>The set of the CPython runtime, for integers\<close>

text \<open>
  How CPython 3 builds \<^verbatim>\<open>set(l)\<close> from a list of integers and lists it again (Objects/setobject.c):
  an open-addressing table of 8 slots that grows by powers of two, filled in the order of \<open>l\<close>
  and listed slot by slot. With it the axis sequences of a concrete file can be computed.
  The C code works on the unsigned 64-bit view of the hash; the table size divides \<open>2 ^ 64\<close>,
  so masking the wrapped value is the remainder by the table size taken here.
\<close>

text \<open>\<^verbatim>\<open>hash(n)\<close> of an integer, as an unsigned 64-bit value.\<close>

definition py_hash :: "int \<Rightarrow> int" where
  "py_hash n =
     (let m = \<bar>n\<bar> mod (2 ^ 61 - 1);
          h = (if n < 0 then - m else m);
          h1 = (if h = - 1 then - 2 else h)
      in h1 mod 2 ^ 64)"

datatype slot = Unused nat | Active | Missed

text \<open>The linear probes: entry \<open>j\<close> and the \<open>k\<close> entries after it.\<close>

fun scan :: "int option list \<Rightarrow> int \<Rightarrow> nat \<Rightarrow> nat \<Rightarrow> slot" where
  "scan tbl key j 0 =
     (case tbl ! j of None \<Rightarrow> Unused j | Some e \<Rightarrow> if e = key then Active else Missed)"
| "scan tbl key j (Suc k) =
     (case tbl ! j of None \<Rightarrow> Unused j | Some e \<Rightarrow> if e = key then Active else scan tbl key (Suc j) k)"

text \<open>The probe loop of \<^verbatim>\<open>set_add_entry\<close> and \<^verbatim>\<open>set_insert_clean\<close> (\<^verbatim>\<open>while (1)\<close>):
  \<open>None\<close> is the loop not ending.\<close>

partial_function (option) set_probe :: "int option list \<Rightarrow> int \<Rightarrow> nat \<Rightarrow> int \<Rightarrow> slot option" where
  "set_probe tbl key i perturb =
     (let s = scan tbl key i (if i + 9 \<le> length tbl - 1 then 9 else 0)
      in if s = Missed
         then set_probe tbl key (nat ((int i * 5 + 1 + perturb div 32) mod int (length tbl)))
                (perturb div 32)
         else Some s)"

declare set_probe.simps [code]

text \<open>\<^verbatim>\<open>set_table_resize\<close>: the smallest power of two above \<open>minused\<close>, from 8.\<close>

function newsize_from :: "nat \<Rightarrow> nat \<Rightarrow> nat" where
  "newsize_from n minused = (if 0 < n \<and> n \<le> minused then newsize_from (2 * n) minused else n)"
  by pat_completeness auto
termination
  by (relation "measure (\<lambda>(n, minused). Suc minused - n)") auto

fun insert_clean :: "int option list \<Rightarrow> int option list option \<Rightarrow> int option list option" where
  "insert_clean [] new = new"
| "insert_clean (None # es) new = insert_clean es new"
| "insert_clean (Some e # es) new =
     (case new of
        None \<Rightarrow> None
      | Some tbl \<Rightarrow>
          (case set_probe tbl e (nat (py_hash e mod int (length tbl))) (py_hash e) of
             Some (Unused j) \<Rightarrow> insert_clean es (Some (tbl[j := Some e]))
           | _ \<Rightarrow> None))"

definition set_table_resize :: "int option list \<Rightarrow> nat \<Rightarrow> int option list option" where
  "set_table_resize tbl minused =
     insert_clean tbl (Some (replicate (newsize_from 8 minused) None))"

text \<open>\<^verbatim>\<open>set_add_entry\<close>, on the table and its fill count.\<close>

definition set_add_entry :: "int option list \<times> nat \<Rightarrow> int \<Rightarrow> (int option list \<times> nat) option" where
  "set_add_entry so key =
     (case so of (tbl, fill) \<Rightarrow>
        (case set_probe tbl key (nat (py_hash key mod int (length tbl))) (py_hash key) of
           None \<Rightarrow> None
         | Some Active \<Rightarrow> Some (tbl, fill)
         | Some Missed \<Rightarrow> None
         | Some (Unused j) \<Rightarrow>
             (let tbl1 = tbl[j := Some key]; fill1 = fill + 1
              in if fill1 * 5 < (length tbl - 1) * 3 then Some (tbl1, fill1)
                 else map_option (\<lambda>t. (t, fill1))
                        (set_table_resize tbl1 (if fill1 > 50000 then fill1 * 2 else fill1 * 4)))))"

fun set_update :: "(int option list \<times> nat) option \<Rightarrow> int list \<Rightarrow> (int option list \<times> nat) option" where
  "set_update so [] = so"
| "set_update so (k # ks) =
     (case so of None \<Rightarrow> None | Some s \<Rightarrow> set_update (set_add_entry s k) ks)"

text \<open>\<^verbatim>\<open>list(set(l))\<close> in CPython; the empty list stands for a probe loop that does not end.\<close>

definition cpython_set_list :: "int list \<Rightarrow> int list" where
  "cpython_set_list l =
     (case set_update (Some (replicate 8 None, 0)) l of
        None \<Rightarrow> []
      | Some (tbl, fill) \<Rightarrow> concat (map (\<lambda>e. case e of None \<Rightarrow> [] | Some k \<Rightarrow> [k]) tbl))"

section \<open>Concrete documents\<close>

text \<open>Two entries of the Unicode name table.\<close>

definition uname_demo :: "nat \<Rightarrow> ustr option" where
  "uname_demo c =
     (if c = 233 then Some (ustr_of ''LATIN SMALL LETTER E WITH ACUTE'')
      else if c = 8593 then Some (ustr_of ''UPWARDS ARROW'')
      else None)"

text \<open>Two LEDs at \<^verbatim>\<open>x = 1\<close> and \<^verbatim>\<open>x = 8\<close> on one line, no \<^verbatim>\<open>matrix\<close>, no \<^verbatim>\<open>layouts\<close>.\<close>

definition demo_raw :: "int doc" where
  "demo_raw =
     \<lparr>rgb_layout = [\<lparr>led_x = 1, led_y = 0, led_matrix = None\<rparr>,
                     \<lparr>led_x = 8, led_y = 0, led_matrix = None\<rparr>],
      layouts = None\<rparr>"

text \<open>Three LEDs on the keys \<^verbatim>\<open>[0, 0]\<close>, \<^verbatim>\<open>[1, 1]\<close> and \<^verbatim>\<open>[1, 0]\<close> of a labelled layout.\<close>

definition demo_matrix :: "int doc" where
  "demo_matrix =
     \<lparr>rgb_layout = [\<lparr>led_x = 0, led_y = 0, led_matrix = Some (0, 0)\<rparr>,
                     \<lparr>led_x = 20, led_y = 15, led_matrix = Some (1, 1)\<rparr>,
                     \<lparr>led_x = 0, led_y = 15, led_matrix = Some (1, 0)\<rparr>],
      layouts = Some [[\<lparr>key_matrix = (0, 0), key_label = Some (ustr_of ''Esc'')\<rparr>,
                       \<lparr>key_matrix = (1, 0), key_label = Some (ustr_of ''Tab'')\<rparr>,
                       \<lparr>key_matrix = (1, 1), key_label = Some (ustr_of ''Q'')\<rparr>]]\<rparr>"

text \<open>One LED whose key is labelled with the two characters U+00E9 and \<^verbatim>\<open>1\<close>.\<close>

definition demo_multichar :: "int doc" where
  "demo_multichar =
     \<lparr>rgb_layout = [\<lparr>led_x = 0, led_y = 0, led_matrix = Some (0, 0)\<rparr>],
      layouts = Some [[\<lparr>key_matrix = (0, 0), key_label = Some [233, 49]\<rparr>]]\<rparr>"

text \<open>An LED whose key has the label \<^verbatim>\<open>""\<close>, then an LED with no \<^verbatim>\<open>matrix\<close>.\<close>

definition demo_empty_label :: "int doc" where
  "demo_empty_label =
     \<lparr>rgb_layout = [\<lparr>led_x = 0, led_y = 0, led_matrix = Some (0, 0)\<rparr>,
                     \<lparr>led_x = 1, led_y = 0, led_matrix = None\<rparr>],
      layouts = Some [[\<lparr>key_matrix = (0, 0), key_label = Some []\<rparr>]]\<rparr>"

text \<open>An LED on the key \<^verbatim>\<open>[0, 0]\<close>, which two entries of the layout declare; the label of
  the first is the letter A and a backslash.\<close>

definition demo_two_keys :: "int doc" where
  "demo_two_keys =
     \<lparr>rgb_layout = [\<lparr>led_x = 0, led_y = 0, led_matrix = Some (0, 0)\<rparr>],
      layouts = Some [[\<lparr>key_matrix = (0, 1), key_label = Some (ustr_of ''W'')\<rparr>,
                       \<lparr>key_matrix = (0, 0), key_label = Some [65, 92]\<rparr>,
                       \<lparr>key_matrix = (0, 0), key_label = Some (ustr_of ''Z'')\<rparr>]]\<rparr>"

section \<open>Lemmas on the building blocks\<close>

lemma index_of_bound: "index_of as v = Some i \<Longrightarrow> i < length as"
  by (induction as arbitrary: i) (auto split: if_splits)

lemma index_of_mem: "v \<in> set as \<Longrightarrow> \<exists>i. index_of as v = Some i"
  by (induction as) auto

lemma replace_chr_id: "old \<notin> set s \<Longrightarrow> replace_chr old new s = s"
  by (induction s) auto

lemma esc_pipeline:
  "replace_chr dquote [backslash, dquote] (replace_chr backslash [backslash, backslash] s) = escape s"
  by (induction s) (auto simp: escape_def esc_chr_def)

lemma escape_steps:
  "(if dquote \<in> set (if backslash \<in> set s then replace_chr backslash [backslash, backslash] s else s)
    then replace_chr dquote [backslash, dquote]
           (if backslash \<in> set s then replace_chr backslash [backslash, backslash] s else s)
    else (if backslash \<in> set s then replace_chr backslash [backslash, backslash] s else s)) = escape s"
  using esc_pipeline[of s] replace_chr_id[of backslash s "[backslash, backslash]"]
   replace_chr_id[of dquote "replace_chr backslash [backslash, backslash] s" "[backslash, dquote]"]
   replace_chr_id[of dquote s "[backslash, dquote]"]
  by auto

text \<open>The two conditional replacements of lines 403 to 406 are the escaping, whatever the
  string they are applied to.\<close>

lemma sanitize_escape:
  "sanitize uname lbl =
     (case (if \<not> isascii lbl then unicodedata_name uname lbl else Inr lbl) of
        Inl e \<Rightarrow> Inl e | Inr s \<Rightarrow> Inr (escape s))"
proof (cases "if \<not> isascii lbl then unicodedata_name uname lbl else Inr lbl")
  case (Inl e)
  show ?thesis unfolding sanitize_def Inl by simp
next
  case (Inr s)
  show ?thesis unfolding sanitize_def Let_def Inr by (simp only: escape_steps sum.case)
qed

lemma well_escaped_esc: "well_escaped (esc_chr c @ r) = well_escaped r"
  by (cases r) (auto simp: esc_chr_def)

lemma well_escaped_escape: "well_escaped (escape s)"
  by (induction s) (auto simp: escape_def well_escaped_esc)






section \<open>The loop keeps positions inside the grid\<close>

lemma setdefault_bound:
  "\<forall>k v. d k = Some v \<longrightarrow> v < W \<Longrightarrow> v0 < W \<Longrightarrow> setdefault d k0 v0 = (v1, d1)
     \<Longrightarrow> v1 < W \<and> (\<forall>k v. d1 k = Some v \<longrightarrow> v < W)"
  by (auto simp: setdefault_def split: option.splits if_splits)

lemma with_matrix_bounded:
  assumes "bounded W H st" "x0 < W" "y0 < H"
    and "with_matrix uname ms ls st m x0 y0 = (r, st1)"
  shows "bounded W H st1 \<and> (\<forall>lbl gx gy. r = Inr (lbl, gx, gy) \<longrightarrow> gx < W \<and> gy < H)"
proof -
  obtain vx dx where sx: "setdefault (matxs st) (fst m) x0 = (vx, dx)"
    by (cases "setdefault (matxs st) (fst m) x0")
  obtain vy dy where sy: "setdefault (matys st) (snd m) y0 = (vy, dy)"
    by (cases "setdefault (matys st) (snd m) y0")
  from assms(1,2) sx have bx: "vx < W \<and> (\<forall>k v. dx k = Some v \<longrightarrow> v < W)"
    using setdefault_bound[of "matxs st" W x0 "fst m" vx dx] by (simp add: bounded_def)
  from assms(1,3) sy have by': "vy < H \<and> (\<forall>k v. dy k = Some v \<longrightarrow> v < H)"
    using setdefault_bound[of "matys st" H y0 "snd m" vy dy] by (simp add: bounded_def)
  show ?thesis
    using assms bx by' sx sy unfolding with_matrix_def bounded_def
    by (auto simp: Let_def split: list.splits option.splits sum.splits if_splits)
qed

lemma led_step_bounded:
  assumes "bounded (length xs) (length ys) st"
    and "led_step uname ms lays xs ys st l = (e, st1)"
  shows "bounded (length xs) (length ys) st1"
proof (cases "index_of xs (sel_x ms l)")
  case None with assms show ?thesis by (simp add: led_step_def)
next
  case (Some x0)
  note X = this
  show ?thesis
  proof (cases "index_of ys (sel_y ms l)")
    case None with assms X show ?thesis by (simp add: led_step_def)
  next
    case (Some y0)
    note Y = this
    have bx: "x0 < length xs" using X by (rule index_of_bound)
    have by': "y0 < length ys" using Y by (rule index_of_bound)
    show ?thesis
    proof (cases "led_matrix l")
      case None
      with assms X Y bx by' show ?thesis
        by (auto simp: led_step_def bounded_def)
    next
      case (Some m)
      note M = this
      show ?thesis
      proof (cases lays)
        case None
        with assms X Y M bx by' show ?thesis
          by (auto simp: led_step_def bounded_def)
      next
        case (Some ls)
        obtain r st2 where W: "with_matrix uname ms ls st m x0 y0 = (r, st2)"
          by (cases "with_matrix uname ms ls st m x0 y0")
        from with_matrix_bounded[OF assms(1) bx by' W]
        have B: "bounded (length xs) (length ys) st2"
          and P: "\<forall>lbl gx gy. r = Inr (lbl, gx, gy) \<longrightarrow> gx < length xs \<and> gy < length ys" by auto
        show ?thesis
          using assms(2) X Y M Some W B P
          by (auto simp: led_step_def bounded_def split: sum.splits option.splits prod.splits)
      qed
    qed
  qed
qed

lemma led_step_no_index_error:
  assumes "sel_x ms l \<in> set xs" "sel_y ms l \<in> set ys"
  shows "fst (led_step uname ms lays xs ys st l) \<noteq> Some ValueError_index"
proof -
  obtain x0 where X: "index_of xs (sel_x ms l) = Some x0" using index_of_mem[OF assms(1)] by blast
  obtain y0 where Y: "index_of ys (sel_y ms l) = Some y0" using index_of_mem[OF assms(2)] by blast
  show ?thesis
    unfolding led_step_def with_matrix_def
    by (auto simp: X Y Let_def sanitize_def unicodedata_name_def
        split: sum.splits option.splits prod.splits list.splits if_splits)
qed

lemma led_loop_bounded:
  "bounded (length xs) (length ys) st \<Longrightarrow> led_loop uname ms lays xs ys st ls = (e, st1)
     \<Longrightarrow> bounded (length xs) (length ys) st1"
proof (induction ls arbitrary: st)
  case Nil then show ?case by simp
next
  case (Cons l ls)
  obtain e0 st0 where S: "led_step uname ms lays xs ys st l = (e0, st0)"
    by (cases "led_step uname ms lays xs ys st l")
  have B: "bounded (length xs) (length ys) st0" using led_step_bounded[OF Cons.prems(1) S] .
  show ?case
  proof (cases e0)
    case None
    with Cons.prems(2) S have "led_loop uname ms lays xs ys st0 ls = (e, st1)" by simp
    from Cons.IH[OF B this] show ?thesis .
  next
    case (Some a)
    with Cons.prems(2) S have "st1 = st0" by simp
    with B show ?thesis by simp
  qed
qed

lemma led_loop_no_index_error:
  "\<forall>l\<in>set ls. sel_x ms l \<in> set xs \<and> sel_y ms l \<in> set ys
     \<Longrightarrow> fst (led_loop uname ms lays xs ys st ls) \<noteq> Some ValueError_index"
proof (induction ls arbitrary: st)
  case Nil then show ?case by simp
next
  case (Cons l ls)
  obtain e0 st0 where S: "led_step uname ms lays xs ys st l = (e0, st0)"
    by (cases "led_step uname ms lays xs ys st l")
  have N: "e0 \<noteq> Some ValueError_index"
    using led_step_no_index_error[of ms l xs ys uname lays st] Cons.prems S by simp
  show ?case
  proof (cases e0)
    case None
    then show ?thesis using S Cons.IH[of st0] Cons.prems by simp
  next
    case (Some a)
    then show ?thesis using S N by simp
  qed
qed

lemma axes_ok_mem:
  assumes "axes_ok set_list ms layout" "l \<in> set layout"
  shows "sel_x ms l \<in> set (axis_xs set_list ms layout) \<and> sel_y ms l \<in> set (axis_ys set_list ms layout)"
  using assms by (auto simp: axes_ok_def set_list_ok_def axis_xs_def axis_ys_def)

lemma bounded_init:
  "bounded W H (st\<lparr>vkeynames := [], vkeypositions := [], unnamed := 0,
                   matxs := Map.empty, matys := Map.empty\<rparr>)"
  by (simp add: bounded_def)

text \<open>The result of the transform in terms of the loop.\<close>

lemma transform_loop:
  assumes "led_loop uname ms (layouts d) (axis_xs set_list ms (rgb_layout d))
             (axis_ys set_list ms (rgb_layout d))
             (init_vars\<lparr>vkeynames := [], vkeypositions := [], unnamed := 0,
                        matxs := Map.empty, matys := Map.empty\<rparr>) (rgb_layout d) = (e, st1)"
  shows "transform set_list uname ms d =
      (case e of Some e \<Rightarrow> Inl e
       | None \<Rightarrow> Inr \<lparr>width = length (axis_xs set_list ms (rgb_layout d)),
                       height = length (axis_ys set_list ms (rgb_layout d)),
                       ledIndices = [0 ..< length (rgb_layout d)],
                       ledNames = vkeynames st1, ledPositions = vkeypositions st1\<rparr>)"
  using assms by (simp add: transform_def process_file_def Let_def)

section \<open>The loop numbers the LEDs that have no label\<close>

lemma with_matrix_keeps:
  "with_matrix uname ms ls st m x0 y0 = (r, st1)
     \<Longrightarrow> unnamed st1 = unnamed st \<and> vkeynames st1 = vkeynames st \<and> vkeypositions st1 = vkeypositions st"
  unfolding with_matrix_def
  by (auto simp: Let_def split: list.splits option.splits sum.splits if_splits prod.splits)

lemma with_matrix_label:
  assumes "with_matrix uname ms ls st m x0 y0 = (Inr (lbl, gx, gy), st1)"
    and "led_matrix l = Some m"
  shows "case raw_label (Some ls) l of
           None \<Rightarrow> lbl = None
         | Some s \<Rightarrow> \<exists>t. lbl = Some t \<and> sanitize uname s = Inr t"
  using assms unfolding with_matrix_def raw_label_def
  by (auto simp: Let_def split: list.splits option.splits sum.splits if_splits prod.splits)

lemma led_step_name:
  assumes "led_step uname ms lays xs ys st l = (None, st1)"
  shows "\<exists>n. vkeynames st1 = vkeynames st @ [n] \<and>
              (case raw_label lays l of
                 None \<Rightarrow> n = light (Suc (unnamed st)) \<and> unnamed st1 = Suc (unnamed st)
               | Some s \<Rightarrow> sanitize uname s = Inr n \<and> unnamed st1 = unnamed st)"
proof -
  obtain x0 where X: "index_of xs (sel_x ms l) = Some x0"
    using assms by (cases "index_of xs (sel_x ms l)") (auto simp: led_step_def)
  obtain y0 where Y: "index_of ys (sel_y ms l) = Some y0"
    using assms X by (cases "index_of ys (sel_y ms l)") (auto simp: led_step_def)
  show ?thesis
  proof (cases "led_matrix l")
    case None
    with assms X Y show ?thesis by (auto simp: led_step_def raw_label_def)
  next
    case (Some m)
    note M = this
    show ?thesis
    proof (cases lays)
      case None
      with assms X Y M show ?thesis by (auto simp: led_step_def raw_label_def)
    next
      case (Some ls)
      obtain r st2 where W: "with_matrix uname ms ls st m x0 y0 = (r, st2)"
        by (cases "with_matrix uname ms ls st m x0 y0")
      from assms X Y M Some W obtain lbl gx gy where R: "r = Inr (lbl, gx, gy)"
        by (cases r) (auto simp: led_step_def)
      have K: "unnamed st2 = unnamed st \<and> vkeynames st2 = vkeynames st"
        using with_matrix_keeps[OF W] by simp
      have U: "case raw_label lays l of
                 None \<Rightarrow> lbl = None
               | Some s \<Rightarrow> \<exists>t. lbl = Some t \<and> sanitize uname s = Inr t"
        using with_matrix_label[OF W[unfolded R] M] Some by simp
      show ?thesis
        using assms X Y M Some W R K U
        by (cases lbl; cases "raw_label lays l") (auto simp: led_step_def)
    qed
  qed
qed

lemma led_loop_names:
  "led_loop uname ms lays xs ys st ls = (None, st1) \<Longrightarrow>
     \<exists>ns. vkeynames st1 = vkeynames st @ ns \<and> length ns = length ls \<and>
          (\<forall>i<length ls.
             case raw_label lays (ls ! i) of
               None \<Rightarrow> ns ! i = light (unnamed st + length (filter (unlabelled lays) (take (Suc i) ls)))
             | Some s \<Rightarrow> sanitize uname s = Inr (ns ! i))"
proof (induction ls arbitrary: st)
  case Nil then show ?case by simp
next
  case (Cons l ls)
  obtain e0 st0 where S: "led_step uname ms lays xs ys st l = (e0, st0)"
    by (cases "led_step uname ms lays xs ys st l")
  with Cons.prems have e0: "e0 = None" by (cases e0) auto
  with Cons.prems S have L: "led_loop uname ms lays xs ys st0 ls = (None, st1)" by simp
  from led_step_name[OF S[unfolded e0]] obtain n where
    N: "vkeynames st0 = vkeynames st @ [n]"
    and N1: "case raw_label lays l of
               None \<Rightarrow> n = light (Suc (unnamed st)) \<and> unnamed st0 = Suc (unnamed st)
             | Some s \<Rightarrow> sanitize uname s = Inr n \<and> unnamed st0 = unnamed st"
    by blast
  from Cons.IH[OF L] obtain ns where
    A: "vkeynames st1 = vkeynames st0 @ ns" and B: "length ns = length ls"
    and C: "\<forall>i<length ls.
             case raw_label lays (ls ! i) of
               None \<Rightarrow> ns ! i = light (unnamed st0 + length (filter (unlabelled lays) (take (Suc i) ls)))
             | Some s \<Rightarrow> sanitize uname s = Inr (ns ! i)"
    by blast
  have "\<forall>i<length (l # ls).
          case raw_label lays ((l # ls) ! i) of
            None \<Rightarrow> (n # ns) ! i =
                      light (unnamed st + length (filter (unlabelled lays) (take (Suc i) (l # ls))))
          | Some s \<Rightarrow> sanitize uname s = Inr ((n # ns) ! i)"
  proof (intro allI impI)
    fix i assume i: "i < length (l # ls)"
    show "case raw_label lays ((l # ls) ! i) of
            None \<Rightarrow> (n # ns) ! i =
                      light (unnamed st + length (filter (unlabelled lays) (take (Suc i) (l # ls))))
          | Some s \<Rightarrow> sanitize uname s = Inr ((n # ns) ! i)"
    proof (cases i)
      case 0
      with N1 show ?thesis by (auto simp: unlabelled_def split: option.splits)
    next
      case (Suc j)
      with i C have
        "case raw_label lays (ls ! j) of
           None \<Rightarrow> ns ! j = light (unnamed st0 + length (filter (unlabelled lays) (take (Suc j) ls)))
         | Some s \<Rightarrow> sanitize uname s = Inr (ns ! j)"
        by simp
      with Suc N1 show ?thesis
        by (cases "raw_label lays l") (auto simp: unlabelled_def split: option.splits)
    qed
  qed
  with A B N show ?case by (intro exI[of _ "n # ns"]) simp
qed

lemma transform_names:
  assumes "transform set_list uname ms d = Inr out"
  shows "length (ledNames out) = length (rgb_layout d) \<and>
         (\<forall>i<length (rgb_layout d).
            case raw_label (layouts d) (rgb_layout d ! i) of
              None \<Rightarrow> ledNames out ! i =
                        light (length (filter (unlabelled (layouts d)) (take (Suc i) (rgb_layout d))))
            | Some s \<Rightarrow> sanitize uname s = Inr (ledNames out ! i))"
proof -
  let ?xs = "axis_xs set_list ms (rgb_layout d)"
  let ?ys = "axis_ys set_list ms (rgb_layout d)"
  let ?st0 = "init_vars\<lparr>vkeynames := [], vkeypositions := [], unnamed := 0,
                   matxs := Map.empty, matys := Map.empty\<rparr> :: 'a vars"
  obtain e st1 where L: "led_loop uname ms (layouts d) ?xs ?ys ?st0 (rgb_layout d) = (e, st1)"
    by (cases "led_loop uname ms (layouts d) ?xs ?ys ?st0 (rgb_layout d)")
  from transform_loop[OF L] assms have e: "e = None" and O: "ledNames out = vkeynames st1"
    by (auto split: option.splits)
  have Z: "unnamed ?st0 = 0" "vkeynames ?st0 = []" by simp_all
  from led_loop_names[OF L[unfolded e]] show ?thesis unfolding Z O add_0 by simp
qed

lemma process_file_fresh:
  "fst (process_file set_list uname ms st d) = transform set_list uname ms d"
proof -
  have E: "st\<lparr>vkeynames := [], vkeypositions := [], unnamed := 0, matxs := Map.empty, matys := Map.empty\<rparr>
      = init_vars\<lparr>vkeynames := [], vkeypositions := [], unnamed := 0, matxs := Map.empty, matys := Map.empty\<rparr>"
    by (cases st) (simp add: init_vars_def)
  show ?thesis unfolding transform_def process_file_def E ..
qed

section \<open>The claims\<close>

text \<open>
  C1. The claim: the axis sequences \<^verbatim>\<open>xs\<close> and \<^verbatim>\<open>ys\<close> are ascending, so that the grid
  column of an LED is the rank of its coordinate. The source sorts before it builds the set
  (\<^verbatim>\<open>list(set(sorted(...)))\<close>), and the set is listed in the order of the runtime. For two
  LEDs at \<^verbatim>\<open>x = 1\<close> and \<^verbatim>\<open>x = 8\<close>, CPython lists the set as \<^verbatim>\<open>[8, 1]\<close>: the LED at
  \<^verbatim>\<open>x = 1\<close> gets column 1 and the LED at \<^verbatim>\<open>x = 8\<close> gets column 0.
\<close>

theorem axis_listing_not_sorted:
  "axis_xs cpython_set_list False (rgb_layout demo_raw) = [8, 1] \<and>
   transform cpython_set_list uname_demo False demo_raw =
     Inr \<lparr>width = 2, height = 1, ledIndices = [0, 1], ledNames = [light 1, light 2],
          ledPositions = [(1, 0), (0, 0)]\<rparr>"
  by code_simp

text \<open>
  C2. The claim: in matrix-sizing mode with \<^verbatim>\<open>layouts\<close> present, LEDs of one matrix row get
  one \<^verbatim>\<open>gridY\<close> and LEDs of one matrix column get one \<^verbatim>\<open>gridX\<close>. Line 394 keys the memo
  of \<^verbatim>\<open>ledx\<close> by \<^verbatim>\<open>matrix[0]\<close>, the row, and line 395 keys the memo of \<^verbatim>\<open>ledy\<close> by
  \<^verbatim>\<open>matrix[1]\<close>, the column, while lines 370 and 378 take the column for X and the row for Y.
  For LEDs on the keys \<^verbatim>\<open>[0, 0]\<close>, \<^verbatim>\<open>[1, 1]\<close>, \<^verbatim>\<open>[1, 0]\<close> the second and third share row 1
  and get rows 1 and 0 of the grid; the first and third share column 0 and get columns 0 and 1.
\<close>

theorem collapse_keys_swapped:
  "transform cpython_set_list uname_demo True demo_matrix =
     Inr \<lparr>width = 2, height = 2, ledIndices = [0, 1, 2],
          ledNames = [ustr_of ''Esc'', ustr_of ''Q'', ustr_of ''Tab''],
          ledPositions = [(0, 0), (1, 1), (1, 0)]\<rparr>"
  by code_simp

text \<open>
  What the sanitizer of lines 401 to 406 does on every label: an ASCII label is escaped; a
  label that is one non-ASCII character with a Unicode name becomes that name, escaped; any
  other label raises, a \<^verbatim>\<open>TypeError\<close> when its length is not 1 and a \<^verbatim>\<open>ValueError\<close> when
  its one character has no name. A file yields its tables only when the label of every LED is
  of the first two kinds.
\<close>

lemma sanitize_outcome:
  "sanitize uname lbl =
     (if isascii lbl then Inr (escape lbl)
      else if length lbl \<noteq> 1 then Inl TypeError_name
      else case uname (hd lbl) of None \<Rightarrow> Inl ValueError_name | Some n \<Rightarrow> Inr (escape n)) \<and>
   (\<forall>out. transform set_list uname ms d = Inr out \<longrightarrow>
      (\<forall>l\<in>set (rgb_layout d). \<forall>s. raw_label (layouts d) l = Some s \<longrightarrow>
         sanitize uname s = Inr (escape s) \<or>
         (\<exists>c n. s = [c] \<and> uname c = Some n \<and> sanitize uname s = Inr (escape n))))"
proof (intro conjI allI impI ballI)
  show E: "\<And>lbl. sanitize uname lbl =
     (if isascii lbl then Inr (escape lbl)
      else if length lbl \<noteq> 1 then Inl TypeError_name
      else case uname (hd lbl) of None \<Rightarrow> Inl ValueError_name | Some n \<Rightarrow> Inr (escape n))"
  proof -
    fix lbl show "?thesis lbl"
    proof (cases lbl)
      case Nil then show ?thesis by (simp add: sanitize_escape isascii_def)
    next
      case (Cons c cs)
      then show ?thesis
        by (cases cs) (auto simp: sanitize_escape unicodedata_name_def split: option.splits)
    qed
  qed
  fix out l s
  assume T: "transform set_list uname ms d = Inr out" and l: "l \<in> set (rgb_layout d)"
    and s: "raw_label (layouts d) l = Some s"
  from l obtain i where i: "i < length (rgb_layout d)" "rgb_layout d ! i = l"
    by (auto simp: in_set_conv_nth)
  with transform_names[OF T] s have S: "sanitize uname s = Inr (ledNames out ! i)" by auto
  show "sanitize uname s = Inr (escape s) \<or>
         (\<exists>c n. s = [c] \<and> uname c = Some n \<and> sanitize uname s = Inr (escape n))"
  proof (cases "isascii s")
    case True then show ?thesis by (simp add: E)
  next
    case False
    with S E[of s] have len: "length s = 1" by (auto split: if_splits)
    then obtain c where c: "s = [c]" by (cases s) auto
    with S E[of s] False show ?thesis by (auto split: option.splits)
  qed
qed

text \<open>
  C3. The claim: sanitizing a label never raises, also for a label of several characters with
  a non-ASCII one among them. The source guards \<^verbatim>\<open>unicodedata.name\<close> by \<^verbatim>\<open>isascii\<close> alone and
  passes it the whole label: for the label of the two characters U+00E9 and \<^verbatim>\<open>1\<close> it raises a
  \<^verbatim>\<open>TypeError\<close>, and the file is given up; for the one character U+0080, which has no name,
  it raises a \<^verbatim>\<open>ValueError\<close>.
\<close>

theorem multichar_label_raises:
  "sanitize uname_demo [233, 49] = Inl TypeError_name \<and>
   sanitize uname_demo [128] = Inl ValueError_name \<and>
   transform cpython_set_list uname_demo False demo_multichar = Inl TypeError_name"
  by code_simp

text \<open>
  C4. The claim: an LED whose matching key has the empty label is named \<^verbatim>\<open>Light N\<close>. The
  source tests \<^verbatim>\<open>"label" in key\<close>, not that the label is non-empty: the name is the empty
  string, and the next LED without a label is \<^verbatim>\<open>Light 1\<close>.
\<close>

theorem empty_label_counterexample:
  "raw_label (layouts demo_empty_label) (rgb_layout demo_empty_label ! 0) = Some [] \<and>
   transform cpython_set_list uname_demo False demo_empty_label =
     Inr \<lparr>width = 2, height = 1, ledIndices = [0, 1], ledNames = [[], light 1],
          ledPositions = [(0, 0), (1, 0)]\<rparr>"
  by code_simp

text \<open>
  C4, as the source has it: in a file that yields its tables, an LED whose matching key has
  the empty label is named by the empty string, and it is not one of the LEDs without a label
  that the counter numbers.
\<close>

theorem empty_label_kept:
  assumes "transform set_list uname ms d = Inr out"
    and "i < length (rgb_layout d)"
    and "raw_label (layouts d) (rgb_layout d ! i) = Some []"
  shows "ledNames out ! i = [] \<and> \<not> unlabelled (layouts d) (rgb_layout d ! i)"
proof -
  from transform_names[OF assms(1)] assms(2,3) have "sanitize uname [] = Inr (ledNames out ! i)"
    by auto
  moreover have "sanitize uname [] = Inr []"
    by (simp add: sanitize_escape isascii_def escape_def)
  ultimately show ?thesis using assms(3) by (simp add: unlabelled_def)
qed

theorem empty_label_kept_witness:
  "transform cpython_set_list uname_demo False demo_empty_label =
     Inr \<lparr>width = 2, height = 1, ledIndices = [0, 1], ledNames = [[], light 1],
          ledPositions = [(0, 0), (1, 0)]\<rparr> \<and>
   0 < length (rgb_layout demo_empty_label) \<and>
   raw_label (layouts demo_empty_label) (rgb_layout demo_empty_label ! 0) = Some [] \<and>
   ledNames \<lparr>width = 2, height = 1, ledIndices = [0, 1], ledNames = [[], light 1],
          ledPositions = [(0, 0), (1, 0)]\<rparr> ! 0 = [] \<and>
   \<not> unlabelled (layouts demo_empty_label) (rgb_layout demo_empty_label ! 0)"
proof -
  have t: "transform cpython_set_list uname_demo False demo_empty_label =
     Inr \<lparr>width = 2, height = 1, ledIndices = [0, 1], ledNames = [[], light 1],
          ledPositions = [(0, 0), (1, 0)]\<rparr>" by code_simp
  have i: "0 < length (rgb_layout demo_empty_label)" by (simp add: demo_empty_label_def)
  have r: "raw_label (layouts demo_empty_label) (rgb_layout demo_empty_label ! 0) = Some []"
    by code_simp
  from empty_label_kept[OF t i r] t i r show ?thesis by (intro conjI) simp_all
qed

text \<open>
  C5. In both modes, when the runtime lists the two coordinate sets with exactly the values put
  in, the coordinate selected for every LED is in its axis sequence, so \<^verbatim>\<open>index\<close> never raises,
  and every position of the result lies inside the grid: \<open>gridX < width\<close> and
  \<open>gridY < height\<close>.
\<close>

theorem positions_in_grid:
  assumes "axes_ok set_list ms (rgb_layout d)"
  shows "(\<forall>l\<in>set (rgb_layout d).
            sel_x ms l \<in> set (axis_xs set_list ms (rgb_layout d)) \<and>
            sel_y ms l \<in> set (axis_ys set_list ms (rgb_layout d))) \<and>
         transform set_list uname ms d \<noteq> Inl ValueError_index \<and>
         (\<forall>out. transform set_list uname ms d = Inr out \<longrightarrow>
            (\<forall>p\<in>set (ledPositions out). fst p < width out \<and> snd p < height out))"
proof -
  let ?xs = "axis_xs set_list ms (rgb_layout d)"
  let ?ys = "axis_ys set_list ms (rgb_layout d)"
  let ?st0 = "init_vars\<lparr>vkeynames := [], vkeypositions := [], unnamed := 0,
                   matxs := Map.empty, matys := Map.empty\<rparr> :: 'a vars"
  obtain e st1 where L: "led_loop uname ms (layouts d) ?xs ?ys ?st0 (rgb_layout d) = (e, st1)"
    by (cases "led_loop uname ms (layouts d) ?xs ?ys ?st0 (rgb_layout d)")
  have M: "\<forall>l\<in>set (rgb_layout d). sel_x ms l \<in> set ?xs \<and> sel_y ms l \<in> set ?ys"
    using axes_ok_mem[OF assms] by blast
  have E: "e \<noteq> Some ValueError_index"
    using led_loop_no_index_error[OF M, of uname "layouts d" ?st0] L by simp
  have B: "bounded (length ?xs) (length ?ys) st1"
    using led_loop_bounded[OF bounded_init L] .
  note T = transform_loop[OF L]
  show ?thesis using M E B T by (auto simp: bounded_def split: option.splits)
qed

theorem positions_in_grid_witness:
  "axes_ok cpython_set_list True (rgb_layout demo_matrix) \<and>
   sel_x True (rgb_layout demo_matrix ! 1) \<in> set (axis_xs cpython_set_list True (rgb_layout demo_matrix)) \<and>
   transform cpython_set_list uname_demo True demo_matrix \<noteq> Inl ValueError_index \<and>
   transform cpython_set_list uname_demo True demo_matrix =
     Inr \<lparr>width = 2, height = 2, ledIndices = [0, 1, 2],
          ledNames = [ustr_of ''Esc'', ustr_of ''Q'', ustr_of ''Tab''],
          ledPositions = [(0, 0), (1, 1), (1, 0)]\<rparr> \<and>
   fst ((1::nat), (0::nat)) < width \<lparr>width = 2, height = 2, ledIndices = [0, 1, 2],
          ledNames = [ustr_of ''Esc'', ustr_of ''Q'', ustr_of ''Tab''],
          ledPositions = [(0, 0), (1, 1), (1, 0)]\<rparr>"
proof -
  have h: "axes_ok cpython_set_list True (rgb_layout demo_matrix)" by code_simp
  have t: "transform cpython_set_list uname_demo True demo_matrix =
     Inr \<lparr>width = 2, height = 2, ledIndices = [0, 1, 2],
          ledNames = [ustr_of ''Esc'', ustr_of ''Q'', ustr_of ''Tab''],
          ledPositions = [(0, 0), (1, 1), (1, 0)]\<rparr>" by code_simp
  have m: "rgb_layout demo_matrix ! 1 \<in> set (rgb_layout demo_matrix)" by (simp add: demo_matrix_def)
  note P = positions_in_grid[OF h, of uname_demo]
  from P m have a: "sel_x True (rgb_layout demo_matrix ! 1) \<in> set (axis_xs cpython_set_list True (rgb_layout demo_matrix))"
    by blast
  from P have b: "transform cpython_set_list uname_demo True demo_matrix \<noteq> Inl ValueError_index" by blast
  from P t have "\<forall>p\<in>set (ledPositions \<lparr>width = 2, height = 2, ledIndices = [0, 1, 2],
          ledNames = [ustr_of ''Esc'', ustr_of ''Q'', ustr_of ''Tab''],
          ledPositions = [(0, 0), (1, 1), (1, 0)]\<rparr>). fst p < width \<lparr>width = 2, height = 2, ledIndices = [0, 1, 2],
          ledNames = [ustr_of ''Esc'', ustr_of ''Q'', ustr_of ''Tab''],
          ledPositions = [(0, 0), (1, 1), (1, 0)]\<rparr> \<and> snd p < height \<lparr>width = 2, height = 2, ledIndices = [0, 1, 2],
          ledNames = [ustr_of ''Esc'', ustr_of ''Q'', ustr_of ''Tab''],
          ledPositions = [(0, 0), (1, 1), (1, 0)]\<rparr>" by blast
  then have c: "fst ((1::nat), (0::nat)) < width \<lparr>width = 2, height = 2, ledIndices = [0, 1, 2],
          ledNames = [ustr_of ''Esc'', ustr_of ''Q'', ustr_of ''Tab''],
          ledPositions = [(0, 0), (1, 1), (1, 0)]\<rparr>" by simp
  from h a b t c show ?thesis by (intro conjI)
qed

text \<open>
  C6. For a label that passes the ASCII check, the sanitized name is the label with every
  backslash doubled and every double quote preceded by a backslash, the backslashes being
  replaced first; read left to right it holds no backslash and no double quote outside these
  two escapes.
\<close>

theorem ascii_label_escaped:
  assumes "isascii lbl"
  shows "sanitize uname lbl = Inr (escape lbl) \<and> well_escaped (escape lbl)"
  using assms well_escaped_escape by (simp add: sanitize_escape)

theorem ascii_label_escaped_witness:
  "isascii [65, 92, 34] \<and> sanitize uname_demo [65, 92, 34] = Inr [65, 92, 92, 92, 34] \<and>
   well_escaped [65, 92, 92, 92, 34]"
proof -
  have h: "isascii [65, 92, 34]" by (simp add: isascii_def)
  have e: "escape [65, 92, 34] = [65, 92, 92, 92, 34]" by (simp add: escape_def esc_chr_def)
  from ascii_label_escaped[OF h, of uname_demo] h show ?thesis unfolding e by simp
qed



text \<open>
  No value of the loop variables passes from one file to the next: the same document processed
  twice in one run, with the same flag, gives twice the result of the transform started
  afresh, whatever the variables held before. This is for one given listing of sets.
\<close>

lemma same_document_twice:
  "run_files set_list uname ms st [d, d] =
     [transform set_list uname ms d, transform set_list uname ms d]"
proof -
  obtain r1 st1 where P1: "process_file set_list uname ms st d = (r1, st1)"
    by (cases "process_file set_list uname ms st d")
  obtain r2 st2 where P2: "process_file set_list uname ms st1 d = (r2, st2)"
    by (cases "process_file set_list uname ms st1 d")
  have "r1 = transform set_list uname ms d" using process_file_fresh[of set_list uname ms st d] P1 by simp
  moreover have "r2 = transform set_list uname ms d" using process_file_fresh[of set_list uname ms st1 d] P2 by simp
  ultimately show ?thesis using P1 P2 by simp
qed


text \<open>
  C9. For a document whose \<^verbatim>\<open>rgb_matrix.layout\<close> is empty the transform raises nothing and
  yields width 0, height 0 and three empty tables (a runtime lists the empty set as the empty
  list).
\<close>

theorem empty_layout:
  assumes "axes_ok set_list ms []"
  shows "transform set_list uname ms \<lparr>rgb_layout = [], layouts = lays\<rparr> =
           Inr \<lparr>width = 0, height = 0, ledIndices = [], ledNames = [], ledPositions = []\<rparr>"
proof -
  have "set_list [] = []" using assms by (simp add: axes_ok_def set_list_ok_def)
  then show ?thesis
    by (simp add: transform_def process_file_def axis_xs_def axis_ys_def init_vars_def)
qed

theorem empty_layout_witness:
  "axes_ok cpython_set_list True [] \<and>
   transform cpython_set_list uname_demo True \<lparr>rgb_layout = [], layouts = None\<rparr> =
     Inr \<lparr>width = 0, height = 0, ledIndices = [], ledNames = [], ledPositions = []\<rparr>"
proof -
  have h: "axes_ok cpython_set_list True ([] :: int led list)" by code_simp
  from empty_layout[OF h, of uname_demo None] h show ?thesis by (intro conjI)
qed

text \<open>
  C10. When several entries of the first layout have the \<^verbatim>\<open>matrix\<close> pair of an LED, the label
  is read from the first of them in the declared order.
\<close>

theorem first_match_label:
  assumes "led_matrix l = Some m"
    and "\<forall>p\<in>set pre. key_matrix p \<noteq> m"
    and "key_matrix k = m"
  shows "next_match (pre @ k # post) m = Some k \<and>
         raw_label (Some ((pre @ k # post) # rest)) l = key_label k"
proof -
  have "next_match (pre @ k # post) m = Some k"
    using assms(2,3) by (induction pre) auto
  then show ?thesis using assms(1) by (simp add: raw_label_def)
qed

theorem first_match_label_witness:
  "led_matrix (rgb_layout demo_two_keys ! 0) = Some (0, 0) \<and>
   raw_label (layouts demo_two_keys) (rgb_layout demo_two_keys ! 0) = Some [65, 92] \<and>
   transform cpython_set_list uname_demo False demo_two_keys =
     Inr \<lparr>width = 1, height = 1, ledIndices = [0], ledNames = [[65, 92, 92]],
          ledPositions = [(0, 0)]\<rparr>"
proof -
  have m: "led_matrix (rgb_layout demo_two_keys ! 0) = Some (0, 0)" by (simp add: demo_two_keys_def)
  have p: "\<forall>p\<in>set [\<lparr>key_matrix = (0, 1), key_label = Some (ustr_of ''W'')\<rparr>]. key_matrix p \<noteq> (0::int, 0::int)"
    by simp
  have k: "key_matrix \<lparr>key_matrix = (0::int, 0::int), key_label = Some [65, 92]\<rparr> = (0, 0)" by simp
  have L: "layouts demo_two_keys =
      Some (([\<lparr>key_matrix = (0, 1), key_label = Some (ustr_of ''W'')\<rparr>] @
             \<lparr>key_matrix = (0, 0), key_label = Some [65, 92]\<rparr> #
             [\<lparr>key_matrix = (0, 0), key_label = Some (ustr_of ''Z'')\<rparr>]) # [])"
    by (simp add: demo_two_keys_def)
  from first_match_label[OF m p k, of "[\<lparr>key_matrix = (0, 0), key_label = Some (ustr_of ''Z'')\<rparr>]" "[]"]
  have r: "raw_label (layouts demo_two_keys) (rgb_layout demo_two_keys ! 0) = Some [65, 92]"
    unfolding L by simp
  have t: "transform cpython_set_list uname_demo False demo_two_keys =
     Inr \<lparr>width = 1, height = 1, ledIndices = [0], ledNames = [[65, 92, 92]],
          ledPositions = [(0, 0)]\<rparr>" by code_simp
  from m r t show ?thesis by (intro conjI)
qed

end
